theory Spec2Isabelle
  imports Main "HOL-Library.Sublist" "HOL-Library.Word"
begin

section \<open>Converting JSON-lines vector files to tensor files\<close>

text \<open>
  A model of \<^verbatim>\<open>src/main/python/safetensors/json_to_bin.py\<close>. The function
  \<^verbatim>\<open>process_file\<close> reads one input file line by line, keeps the records whose
  \<^verbatim>\<open>vector\<close> starts with a float, turns each \<^verbatim>\<open>docid\<close> into a list of character
  codes, stacks both lists into tensors and writes two files.

  Library calls are modelled by their documented behaviour:
  \<^item> \<^verbatim>\<open>json.loads\<close>: a line of the input is given by what \<^verbatim>\<open>json.loads\<close> returns for it,
    a JSON value or the exception \<^verbatim>\<open>JSONDecodeError\<close>;
  \<^item> \<^verbatim>\<open>os.path\<close>: POSIX paths; a file is identified by its path string;
  \<^item> \<^verbatim>\<open>torch.tensor\<close>, \<^verbatim>\<open>pad_sequence\<close>, \<^verbatim>\<open>save_file\<close>, \<^verbatim>\<open>load_file\<close>: arrays are lists of
    rows, a written file holds the named array it was given, and the store accepts
    every write.
  The progress bar and the log records of level info, debug and error change no result
  and are left out; the warnings of the read loop are kept.
\<close>

subsection \<open>Exceptions and JSON values\<close>

datatype error =
    FileNotFoundError | FileExistsError | ValueError | IOError
  | JSONDecodeError | KeyError | IndexError | TypeError | AttributeError
  | OverflowError | RuntimeError | UnicodeDecodeError

text \<open>A Python float is an IEEE-754 double, kept as its 64-bit pattern.\<close>

type_synonym float64 = "64 word"

text \<open>
  The values \<^verbatim>\<open>json.loads\<close> returns. An object is a Python dict with string keys, kept
  as the list of its items in insertion order (keys distinct); lookup is \<open>map_of\<close>.
  A character of a string is a code point below 256, which covers ASCII.
\<close>

datatype json =
    JNull | JBool bool | JInt int | JFloat float64 | JString string
  | JArray "json list" | JObject "(string \<times> json) list"

text \<open>A line of the input file: \<open>None\<close> when \<^verbatim>\<open>json.loads(line)\<close> raises.\<close>

type_synonym line = "json option"

text \<open>\<^verbatim>\<open>entry.get(key, default)\<close>: only a dict has the method.\<close>

definition dict_get :: "json \<Rightarrow> string \<Rightarrow> json \<Rightarrow> error + json" where
  "dict_get entry key dflt =
     (case entry of
        JObject kvs \<Rightarrow> Inr (case map_of kvs key of None \<Rightarrow> dflt | Some v \<Rightarrow> v)
      | _ \<Rightarrow> Inl AttributeError)"

text \<open>\<^verbatim>\<open>entry[key]\<close> with a string key.\<close>

definition getitem :: "json \<Rightarrow> string \<Rightarrow> error + json" where
  "getitem entry key =
     (case entry of
        JObject kvs \<Rightarrow> (case map_of kvs key of None \<Rightarrow> Inl KeyError | Some v \<Rightarrow> Inr v)
      | _ \<Rightarrow> Inl TypeError)"

text \<open>
  \<^verbatim>\<open>x[0]\<close>: the first element of a list, the first character of a string,
  \<^verbatim>\<open>IndexError\<close> when either is empty, \<^verbatim>\<open>KeyError\<close> on a dict (its keys are strings),
  \<^verbatim>\<open>TypeError\<close> on a value that cannot be subscripted.
\<close>

definition getitem0 :: "json \<Rightarrow> error + json" where
  "getitem0 x =
     (case x of
        JArray xs \<Rightarrow> (case xs of [] \<Rightarrow> Inl IndexError | y # _ \<Rightarrow> Inr y)
      | JString s \<Rightarrow> (case s of [] \<Rightarrow> Inl IndexError | c # _ \<Rightarrow> Inr (JString [c]))
      | JObject _ \<Rightarrow> Inl KeyError
      | _ \<Rightarrow> Inl TypeError)"

text \<open>\<^verbatim>\<open>isinstance(x, float)\<close>: an int or a bool is not a float.\<close>

definition is_float :: "json \<Rightarrow> bool" where
  "is_float x = (case x of JFloat _ \<Rightarrow> True | _ \<Rightarrow> False)"

text \<open>\<^verbatim>\<open>ord(char)\<close>: defined on a string of length one.\<close>

definition py_ord :: "json \<Rightarrow> error + int" where
  "py_ord x =
     (case x of
        JString s \<Rightarrow> (case s of [c] \<Rightarrow> Inr (of_char c) | _ \<Rightarrow> Inl TypeError)
      | _ \<Rightarrow> Inl TypeError)"

text \<open>
  What \<^verbatim>\<open>for char in docid\<close> runs over: the characters of a string, the elements of a
  list, the keys of a dict; any other value is not iterable.
\<close>

definition iterate :: "json \<Rightarrow> error + json list" where
  "iterate x =
     (case x of
        JString s \<Rightarrow> Inr (map (\<lambda>c. JString [c]) s)
      | JArray xs \<Rightarrow> Inr xs
      | JObject kvs \<Rightarrow> Inr (map (\<lambda>kv. JString (fst kv)) kvs)
      | _ \<Rightarrow> Inl TypeError)"

text \<open>A comprehension whose body may raise: the first exception ends it.\<close>

fun map_raise :: "('a \<Rightarrow> error + 'b) \<Rightarrow> 'a list \<Rightarrow> error + 'b list" where
  "map_raise f [] = Inr []"
| "map_raise f (x # xs) =
     (case f x of
        Inl e \<Rightarrow> Inl e
      | Inr y \<Rightarrow> (case map_raise f xs of Inl e \<Rightarrow> Inl e | Inr ys \<Rightarrow> Inr (y # ys)))"

text \<open>\<^verbatim>\<open>docid_ascii = [ord(char) for char in docid]\<close>\<close>

definition docid_ascii :: "json \<Rightarrow> error + int list" where
  "docid_ascii docid =
     (case iterate docid of Inl e \<Rightarrow> Inl e | Inr chars \<Rightarrow> map_raise py_ord chars)"

text \<open>The inverse table of \<^verbatim>\<open>ord\<close>: \<^verbatim>\<open>chr\<close> on each code.\<close>

definition decode_docid :: "int list \<Rightarrow> string" where
  "decode_docid codes = map char_of codes"

subsection \<open>The read loop\<close>

datatype warning = SkippedVector json | SkippedJSON error

text \<open>The two lists the loop appends to, and the warnings it logs.\<close>

record batch =
  vectors :: "json list"
  docids :: "int list list"
  warnings :: "warning list"

definition empty_batch :: batch where
  "empty_batch = \<lparr>vectors = [], docids = [], warnings = []\<rparr>"

text \<open>
  The body of the \<^verbatim>\<open>try\<close> block after \<^verbatim>\<open>json.loads\<close>, statement by statement. The result
  is the exception raised (if any) and the lists as they are at that moment:
  \<^verbatim>\<open>vectors.append\<close> runs before \<^verbatim>\<open>entry["docid"]\<close> is looked up.
\<close>

definition handle_entry :: "json \<Rightarrow> batch \<Rightarrow> error option \<times> batch" where
  "handle_entry entry b =
     (case dict_get entry ''vector'' (JArray [JNull]) of
        Inl e \<Rightarrow> (Some e, b)
      | Inr v \<Rightarrow>
          (case getitem0 v of
             Inl e \<Rightarrow> (Some e, b)
           | Inr x \<Rightarrow>
               if is_float x then
                 (case getitem entry ''vector'' of
                    Inl e \<Rightarrow> (Some e, b)
                  | Inr vec \<Rightarrow>
                      let b1 = b\<lparr>vectors := vectors b @ [vec]\<rparr> in
                      (case getitem entry ''docid'' of
                         Inl e \<Rightarrow> (Some e, b1)
                       | Inr docid \<Rightarrow>
                           (case docid_ascii docid of
                              Inl e \<Rightarrow> (Some e, b1)
                            | Inr codes \<Rightarrow> (None, b1\<lparr>docids := docids b1 @ [codes]\<rparr>))))
               else
                 (case dict_get entry ''docid'' (JString ''N/A'') of
                    Inl e \<Rightarrow> (Some e, b)
                  | Inr d \<Rightarrow> (None, b\<lparr>warnings := warnings b @ [SkippedVector d]\<rparr>))))"

text \<open>
  One iteration: \<^verbatim>\<open>except (json.JSONDecodeError, KeyError)\<close> logs a warning and goes on;
  every other exception leaves the loop (\<open>Inl\<close>).
\<close>

definition process_line :: "line \<Rightarrow> batch \<Rightarrow> error + batch" where
  "process_line l b =
     (case l of
        None \<Rightarrow> Inr (b\<lparr>warnings := warnings b @ [SkippedJSON JSONDecodeError]\<rparr>)
      | Some entry \<Rightarrow>
          (case handle_entry entry b of
             (None, b') \<Rightarrow> Inr b'
           | (Some e, b') \<Rightarrow>
               if e = JSONDecodeError \<or> e = KeyError
               then Inr (b'\<lparr>warnings := warnings b' @ [SkippedJSON e]\<rparr>)
               else Inl e))"

text \<open>\<^verbatim>\<open>for line in file\<close>\<close>

fun process_lines :: "line list \<Rightarrow> batch \<Rightarrow> error + batch" where
  "process_lines [] b = Inr b"
| "process_lines (l # ls) b =
     (case process_line l b of Inl e \<Rightarrow> Inl e | Inr b' \<Rightarrow> process_lines ls b')"

subsection \<open>Building the tensors\<close>

text \<open>
  An element of the float64 array, named by the Python number it is converted from.
  The rounding of an int to a double is not computed; an int that no double can hold
  (one that rounds to \<open>2 ^ 1024\<close>) makes the conversion raise \<^verbatim>\<open>OverflowError\<close>.
\<close>

datatype element = FromFloat float64 | FromInt int | FromBool bool

definition to_float64 :: "json \<Rightarrow> error + element" where
  "to_float64 x =
     (case x of
        JFloat f \<Rightarrow> Inr (FromFloat f)
      | JInt n \<Rightarrow> if \<bar>n\<bar> < 2 ^ 1024 - 2 ^ 970 then Inr (FromInt n) else Inl OverflowError
      | JBool b \<Rightarrow> Inr (FromBool b)
      | _ \<Rightarrow> Inl TypeError)"

text \<open>One row of given width: a list of that length whose elements are numbers.\<close>

definition tensor_row :: "nat \<Rightarrow> json \<Rightarrow> error + element list" where
  "tensor_row w r =
     (case r of
        JArray xs \<Rightarrow> if length xs = w then map_raise to_float64 xs else Inl ValueError
      | _ \<Rightarrow> Inl TypeError)"

text \<open>
  \<^verbatim>\<open>torch.tensor(vectors, dtype=torch.float64)\<close>: the first row fixes the width, every
  row must have it. The empty list gives an array without rows.
\<close>

definition torch_tensor_f64 :: "json list \<Rightarrow> error + element list list" where
  "torch_tensor_f64 rows =
     (case rows of
        [] \<Rightarrow> Inr []
      | r # _ \<Rightarrow>
          (case r of
             JArray xs \<Rightarrow> map_raise (tensor_row (length xs)) rows
           | _ \<Rightarrow> Inl TypeError))"

text \<open>\<^verbatim>\<open>torch.tensor(d, dtype=torch.int64)\<close>: every code must fit 64 signed bits.\<close>

definition torch_tensor_i64 :: "int list \<Rightarrow> error + 64 word list" where
  "torch_tensor_i64 d =
     (if list_all (\<lambda>c. - (2 ^ 63) \<le> c \<and> c < 2 ^ 63) d
      then Inr (map of_int d) else Inl RuntimeError)"

definition max_len :: "'a list list \<Rightarrow> nat" where
  "max_len seqs = foldr (\<lambda>s m. max (length s) m) seqs 0"

text \<open>
  \<^verbatim>\<open>pad_sequence(seqs, batch_first=True)\<close>: one row per sequence, in order, filled with
  zeros on the right up to the longest; an empty list of sequences is rejected.
\<close>

definition pad_sequence :: "64 word list list \<Rightarrow> error + 64 word list list" where
  "pad_sequence seqs =
     (if seqs = [] then Inl RuntimeError
      else Inr (map (\<lambda>s. s @ replicate (max_len seqs - length s) 0) seqs))"

datatype tensor = Float64 "element list list" | Int64 "64 word list list"

text \<open>The two statements under \<^verbatim>\<open># Convert lists to tensors\<close>.\<close>

definition build_tensors :: "batch \<Rightarrow> error + tensor \<times> tensor" where
  "build_tensors b =
     (case torch_tensor_f64 (vectors b) of
        Inl e \<Rightarrow> Inl e
      | Inr vectors_tensor \<Rightarrow>
          (case map_raise torch_tensor_i64 (docids b) of
             Inl e \<Rightarrow> Inl e
           | Inr seqs \<Rightarrow>
               (case pad_sequence seqs of
                  Inl e \<Rightarrow> Inl e
                | Inr docids_tensor \<Rightarrow> Inr (Float64 vectors_tensor, Int64 docids_tensor))))"

subsection \<open>Paths\<close>

text \<open>\<^verbatim>\<open>os.path.basename\<close>: what follows the last slash.\<close>

definition basename :: "string \<Rightarrow> string" where
  "basename p = rev (takeWhile (\<lambda>c. c \<noteq> CHR ''/'') (rev p))"

text \<open>
  \<^verbatim>\<open>s.replace(old, new)\<close>: every occurrence of \<open>old\<close>, found from the left without
  overlap, becomes \<open>new\<close>; the result is not scanned again.
\<close>

fun replace :: "string \<Rightarrow> string \<Rightarrow> string \<Rightarrow> string" where
  "replace old new [] = (if old = [] then new else [])"
| "replace old new (c # cs) =
     (if old = [] then new @ c # replace old new cs
      else if prefix old (c # cs) then new @ replace old new (drop (length old - 1) cs)
      else c # replace old new cs)"

text \<open>\<^verbatim>\<open>.replace(".jsonl", "").replace(".gz", "").replace(".json", "")\<close>\<close>

definition remove_extensions :: "string \<Rightarrow> string" where
  "remove_extensions name =
     replace ''.json'' [] (replace ''.gz'' [] (replace ''.jsonl'' [] name))"

definition base_name :: "string \<Rightarrow> string" where
  "base_name input_file_path = remove_extensions (basename input_file_path)"

text \<open>\<^verbatim>\<open>os.path.join(a, b)\<close>\<close>

definition path_join :: "string \<Rightarrow> string \<Rightarrow> string" where
  "path_join a b =
     (if prefix ''/'' b then b
      else if a = [] \<or> suffix ''/'' a then a @ b
      else a @ ''/'' @ b)"

definition vectors_path :: "string \<Rightarrow> string \<Rightarrow> string" where
  "vectors_path input_file_path output_directory =
     path_join output_directory (base_name input_file_path @ ''_vectors.safetensors'')"

definition docids_path :: "string \<Rightarrow> string \<Rightarrow> string" where
  "docids_path input_file_path output_directory =
     path_join output_directory (base_name input_file_path @ ''_docids.safetensors'')"

subsection \<open>Files\<close>

text \<open>
  A file is text (one JSON entry per line), the same text compressed with gzip, or
  what \<^verbatim>\<open>save_file\<close> wrote: named arrays.
\<close>

datatype file_content = Text "line list" | Gzip "line list" | SafeTensors "(string \<times> tensor) list"

type_synonym filesystem = "string \<rightharpoonup> file_content"

datatype opener = GzipOpen | PlainOpen

text \<open>The \<^verbatim>\<open>if\<close>/\<^verbatim>\<open>elif\<close>/\<^verbatim>\<open>else\<close> on the path that picks \<^verbatim>\<open>gzip.open\<close> or \<^verbatim>\<open>open\<close>.\<close>

definition file_opener :: "string \<Rightarrow> error + opener" where
  "file_opener input_file_path =
     (if suffix ''.gz'' input_file_path then Inr GzipOpen
      else if suffix ''.jsonl'' input_file_path \<or> suffix ''.json'' input_file_path
      then Inr PlainOpen
      else Inl ValueError)"

text \<open>
  Reading all lines through an opener; text is UTF-8.
  \<^item> \<^verbatim>\<open>open\<close> gives the lines of a text file. On compressed or binary content decoding
    raises \<^verbatim>\<open>UnicodeDecodeError\<close> (the second byte of a gzip stream is no UTF-8 start
    byte), which \<^verbatim>\<open>except IOError\<close> does not catch.
  \<^item> \<^verbatim>\<open>gzip.open\<close> gives the lines of a compressed file. A file of no bytes, which is the
    text file without lines, reads as an empty stream. Any other content that does not
    start with the gzip magic number raises \<^verbatim>\<open>BadGzipFile\<close>, an \<^verbatim>\<open>OSError\<close>, which
    \<^verbatim>\<open>process_file\<close> raises again as \<^verbatim>\<open>IOError\<close>.
  A tensor file is taken to be binary content: neither gzip nor text.
\<close>

definition read_lines :: "opener \<Rightarrow> file_content \<Rightarrow> error + line list" where
  "read_lines opn f =
     (case opn of
        PlainOpen \<Rightarrow>
          (case f of
             Text ls \<Rightarrow> Inr ls
           | Gzip _ \<Rightarrow> Inl UnicodeDecodeError
           | SafeTensors _ \<Rightarrow> Inl UnicodeDecodeError)
      | GzipOpen \<Rightarrow>
          (case f of
             Gzip ls \<Rightarrow> Inr ls
           | Text ls \<Rightarrow> if ls = [] then Inr [] else Inl IOError
           | SafeTensors _ \<Rightarrow> Inl IOError))"

text \<open>\<^verbatim>\<open>save_file({key: t}, path)\<close> creates or replaces the file at the path.\<close>

definition save_file :: "string \<Rightarrow> tensor \<Rightarrow> string \<Rightarrow> filesystem \<Rightarrow> filesystem" where
  "save_file key t path fs = fs(path \<mapsto> SafeTensors [(key, t)])"

text \<open>\<^verbatim>\<open>load_file(path)[key]\<close>\<close>

definition load_file :: "filesystem \<Rightarrow> string \<Rightarrow> string \<Rightarrow> error + tensor" where
  "load_file fs path key =
     (case fs path of
        Some (SafeTensors kvs) \<Rightarrow>
          (case map_of kvs key of None \<Rightarrow> Inl KeyError | Some t \<Rightarrow> Inr t)
      | _ \<Rightarrow> Inl IOError)"

subsection \<open>Processing one file\<close>

text \<open>
  \<^verbatim>\<open>process_file(input_file_path, output_directory, overwrite)\<close>: the result is the
  exception that ends the call (or \<open>Inr ()\<close>) and the files as the call leaves them.
  The first pass over the file, which counts its lines for the progress bar, swallows
  every exception and has no part in the result. The last two steps read both files
  back, as the code does to verify them.
\<close>

definition process_file ::
  "filesystem \<Rightarrow> string \<Rightarrow> string \<Rightarrow> bool \<Rightarrow> (error + unit) \<times> filesystem" where
  "process_file fs input_file_path output_directory overwrite =
     (case fs input_file_path of
        None \<Rightarrow> (Inl FileNotFoundError, fs)
      | Some f \<Rightarrow>
          let vp = vectors_path input_file_path output_directory;
              dp = docids_path input_file_path output_directory
          in
          if \<not> overwrite \<and> (fs vp \<noteq> None \<or> fs dp \<noteq> None) then (Inl FileExistsError, fs)
          else
            (case file_opener input_file_path of
               Inl e \<Rightarrow> (Inl e, fs)
             | Inr opn \<Rightarrow>
                 (case read_lines opn f of
                    Inl e \<Rightarrow> (Inl e, fs)
                  | Inr ls \<Rightarrow>
                      (case process_lines ls empty_batch of
                         Inl e \<Rightarrow> (Inl e, fs)
                       | Inr b \<Rightarrow>
                           (case build_tensors b of
                              Inl e \<Rightarrow> (Inl e, fs)
                            | Inr (vectors_tensor, docids_tensor) \<Rightarrow>
                                let fs1 = save_file ''vectors'' vectors_tensor vp fs;
                                    fs2 = save_file ''docids'' docids_tensor dp fs1
                                in
                                (case load_file fs2 vp ''vectors'' of
                                   Inl e \<Rightarrow> (Inl e, fs2)
                                 | Inr loaded_vectors \<Rightarrow>
                                     (case load_file fs2 dp ''docids'' of
                                        Inl e \<Rightarrow> (Inl e, fs2)
                                      | Inr loaded_docids \<Rightarrow> (Inr (), fs2))))))))"

subsection \<open>Notions used to state the properties\<close>

text \<open>
  The lines of the input file as \<^verbatim>\<open>process_file\<close> gets them: the file must exist, the
  path decides the opener, the opener reads the file.
\<close>

definition input_lines :: "filesystem \<Rightarrow> string \<Rightarrow> error + line list" where
  "input_lines fs input_file_path =
     (case fs input_file_path of
        None \<Rightarrow> Inl FileNotFoundError
      | Some f \<Rightarrow>
          (case file_opener input_file_path of
             Inl e \<Rightarrow> Inl e
           | Inr opn \<Rightarrow> read_lines opn f))"

text \<open>
  The specification's count: a line that parses as JSON and whose \<^verbatim>\<open>vector\<close> field is
  a non-empty array whose first element is a float.
\<close>

definition starts_with_float :: "line \<Rightarrow> bool" where
  "starts_with_float l =
     (case l of
        Some (JObject kvs) \<Rightarrow>
          (case map_of kvs ''vector'' of
             Some (JArray (JFloat _ # _)) \<Rightarrow> True
           | _ \<Rightarrow> False)
      | _ \<Rightarrow> False)"

text \<open>
  What one line adds to \<^verbatim>\<open>docids\<close> when the loop survives it: nothing, or the code
  sequence of its docid.
\<close>

definition codes_of_line :: "line \<Rightarrow> int list list" where
  "codes_of_line l = (case process_line l empty_batch of Inl _ \<Rightarrow> [] | Inr b \<Rightarrow> docids b)"

text \<open>
  The specification's base name: the file name with every trailing \<^verbatim>\<open>.gz\<close>,
  \<^verbatim>\<open>.jsonl\<close> or \<^verbatim>\<open>.json\<close> suffix taken off and the rest left as it is.
\<close>

function spec_base_name :: "string \<Rightarrow> string" where
  "spec_base_name s =
     (if suffix ''.gz'' s then spec_base_name (take (length s - 3) s)
      else if suffix ''.jsonl'' s then spec_base_name (take (length s - 6) s)
      else if suffix ''.json'' s then spec_base_name (take (length s - 5) s)
      else s)"
  by pat_completeness auto
termination
  by (relation "measure length") (auto simp: suffix_def)

declare spec_base_name.simps [simp del]

subsection \<open>Example inputs\<close>

text \<open>
  The float literals are the doubles nearest to 0.1, 0.2, 0.3 and 0.4.
  \<^verbatim>\<open>{"vector": [0.1, 0.2], "docid": "ab"}\<close> and \<^verbatim>\<open>{"vector": [0.3, 0.4], "docid": "c"}\<close>:
\<close>

definition record_ab :: line where
  "record_ab =
     Some (JObject [(''vector'', JArray [JFloat 0x3FB999999999999A, JFloat 0x3FC999999999999A]),
                    (''docid'', JString ''ab'')])"

definition record_c :: line where
  "record_c =
     Some (JObject [(''vector'', JArray [JFloat 0x3FD3333333333333, JFloat 0x3FD999999999999A]),
                    (''docid'', JString ''c'')])"

text \<open>\<^verbatim>\<open>{"vector": [0.3], "docid": "c"}\<close>, a vector shorter than the others:\<close>

definition record_short :: line where
  "record_short =
     Some (JObject [(''vector'', JArray [JFloat 0x3FD3333333333333]), (''docid'', JString ''c'')])"

text \<open>\<^verbatim>\<open>{"vector": [], "docid": "x"}\<close>, \<^verbatim>\<open>{"vector": [0.1, 0.2]}\<close> and \<^verbatim>\<open>{"docid": "x"}\<close>:\<close>

definition record_empty_vector :: line where
  "record_empty_vector = Some (JObject [(''vector'', JArray []), (''docid'', JString ''x'')])"

definition record_no_docid :: line where
  "record_no_docid =
     Some (JObject [(''vector'', JArray [JFloat 0x3FB999999999999A, JFloat 0x3FC999999999999A])])"

definition record_no_vector :: line where
  "record_no_vector = Some (JObject [(''docid'', JString ''x'')])"

text \<open>A directory with one text file: two good records, a broken line, a record without vector.\<close>

definition example_fs :: filesystem where
  "example_fs = [''in/a.jsonl'' \<mapsto> Text [record_ab, None, record_no_vector, record_c]]"

definition example_result :: filesystem where
  "example_result =
     example_fs(
       ''out/a_vectors.safetensors'' \<mapsto>
         SafeTensors [(''vectors'',
           Float64 [[FromFloat 0x3FB999999999999A, FromFloat 0x3FC999999999999A],
                    [FromFloat 0x3FD3333333333333, FromFloat 0x3FD999999999999A]])],
       ''out/a_docids.safetensors'' \<mapsto> SafeTensors [(''docids'', Int64 [[97, 98], [99, 0]])])"

section \<open>Facts about the model\<close>

subsection \<open>Comprehensions and the docid transform\<close>

lemma map_raise_length: "map_raise f xs = Inr ys \<Longrightarrow> length ys = length xs"
  by (induction xs arbitrary: ys) (auto split: sum.splits)

lemma map_raise_py_ord: "map_raise py_ord (map (\<lambda>c. JString [c]) s) = Inr (map of_char s)"
  by (induction s) (simp_all add: py_ord_def)

lemma docid_ascii_string: "docid_ascii (JString s) = Inr (map of_char s)"
  by (simp add: docid_ascii_def iterate_def map_raise_py_ord)

subsection \<open>The read loop\<close>

lemma handle_entry_vectors:
  "length (vectors (snd (handle_entry entry b))) =
     length (vectors b) + (if starts_with_float (Some entry) then 1 else 0)"
  by (simp add: handle_entry_def dict_get_def getitem0_def getitem_def is_float_def
      starts_with_float_def Let_def
      split: json.splits option.splits list.splits sum.splits)

lemma process_line_vectors:
  assumes "process_line l b = Inr b'"
  shows "length (vectors b') = length (vectors b) + (if starts_with_float l then 1 else 0)"
proof (cases l)
  case None
  with assms show ?thesis by (auto simp: process_line_def starts_with_float_def)
next
  case (Some entry)
  with assms handle_entry_vectors [of entry b] show ?thesis
    by (auto simp: process_line_def split: prod.splits option.splits if_splits)
qed

lemma process_lines_vectors:
  "process_lines ls b = Inr b' \<Longrightarrow>
     length (vectors b') = length (vectors b) + length (filter starts_with_float ls)"
proof (induction ls arbitrary: b)
  case Nil
  then show ?case by simp
next
  case (Cons l ls)
  then obtain b1 where 1: "process_line l b = Inr b1" and 2: "process_lines ls b1 = Inr b'"
    by (auto split: sum.splits)
  from Cons.IH [OF 2] process_line_vectors [OF 1] show ?case by simp
qed

lemma handle_entry_docids:
  "docids (snd (handle_entry entry b)) =
     docids b @ docids (snd (handle_entry entry empty_batch))"
  by (simp add: handle_entry_def Let_def empty_batch_def split: sum.splits)

lemma handle_entry_raised:
  "fst (handle_entry entry b) = fst (handle_entry entry empty_batch)"
  by (simp add: handle_entry_def Let_def empty_batch_def split: sum.splits)

lemma process_line_docids:
  "process_line l b = Inr b' \<Longrightarrow> docids b' = docids b @ codes_of_line l"
  using handle_entry_docids [of "the l" b] handle_entry_raised [of "the l" b]
  by (cases l)
    (auto simp: process_line_def codes_of_line_def empty_batch_def
      split: prod.splits option.splits if_splits)

lemma process_lines_docids:
  "process_lines ls b = Inr b' \<Longrightarrow> docids b' = docids b @ concat (map codes_of_line ls)"
proof (induction ls arbitrary: b)
  case Nil
  then show ?case by simp
next
  case (Cons l ls)
  then obtain b1 where 1: "process_line l b = Inr b1" and 2: "process_lines ls b1 = Inr b'"
    by (auto split: sum.splits)
  from Cons.IH [OF 2] process_line_docids [OF 1] show ?case by simp
qed

text \<open>A record with a float vector and a string docid adds the codes of that string.\<close>

lemma codes_of_line_record:
  assumes "map_of kvs ''vector'' = Some (JArray (JFloat x # xs))"
    and "map_of kvs ''docid'' = Some (JString d)"
  shows "codes_of_line (Some (JObject kvs)) = [map of_char d]"
  using assms
  by (simp add: codes_of_line_def process_line_def handle_entry_def dict_get_def getitem0_def
      getitem_def is_float_def docid_ascii_string empty_batch_def)

text \<open>A line that fails the vector check adds nothing.\<close>

lemma handle_entry_no_float:
  "docids (snd (handle_entry entry b)) =
     (if starts_with_float (Some entry) then docids (snd (handle_entry entry b)) else docids b)"
  by (simp add: handle_entry_def dict_get_def getitem0_def getitem_def is_float_def
      starts_with_float_def Let_def
      split: json.splits option.splits list.splits sum.splits)

lemma codes_of_line_no_float:
  assumes "\<not> starts_with_float l"
  shows "codes_of_line l = []"
proof (cases l)
  case None
  then show ?thesis by (simp add: codes_of_line_def process_line_def empty_batch_def)
next
  case (Some entry)
  with assms handle_entry_no_float [of entry empty_batch]
  have "docids (snd (handle_entry entry empty_batch)) = []" by (simp add: empty_batch_def)
  with Some show ?thesis
    by (auto simp: codes_of_line_def process_line_def split: prod.splits option.splits sum.splits)
qed

subsection \<open>Tensors\<close>

lemma torch_tensor_f64_rows: "torch_tensor_f64 rows = Inr t \<Longrightarrow> length t = length rows"
  by (cases rows)
    (auto simp: torch_tensor_f64_def simp del: map_raise.simps dest!: map_raise_length
      split: json.splits)

lemma torch_tensor_i64_sint: "torch_tensor_i64 d = Inr s \<Longrightarrow> map sint s = d"
proof -
  have "- (2 ^ 63) \<le> c \<Longrightarrow> c < 2 ^ 63 \<Longrightarrow> sint (word_of_int c :: 64 word) = c" for c
    by (simp add: signed_of_int signed_take_bit_int_eq_self)
  then show "torch_tensor_i64 d = Inr s \<Longrightarrow> map sint s = d"
    by (auto simp: torch_tensor_i64_def list_all_iff map_idI split: if_splits)
qed

lemma map_raise_i64_sint:
  "map_raise torch_tensor_i64 ds = Inr seqs \<Longrightarrow> map (map sint) seqs = ds"
  by (induction ds arbitrary: seqs) (auto split: sum.splits dest: torch_tensor_i64_sint)

lemma length_le_max_len: "s \<in> set seqs \<Longrightarrow> length s \<le> max_len seqs"
  unfolding max_len_def by (induction seqs) auto

lemma max_len_Max: "seqs \<noteq> [] \<Longrightarrow> max_len seqs = Max (length ` set seqs)"
proof (induction seqs)
  case Nil
  then show ?case by simp
next
  case (Cons s seqs)
  show ?case
  proof (cases "seqs = []")
    case True
    then show ?thesis by (simp add: max_len_def)
  next
    case False
    with Cons have "max_len seqs = Max (length ` set seqs)" by simp
    with False show ?thesis by (simp add: max_len_def)
  qed
qed

lemma max_len_map: "max_len (map (map f) seqs) = max_len seqs"
  unfolding max_len_def by (induction seqs) simp_all

lemma build_tensors_result:
  assumes "build_tensors b = Inr (vt, dt)"
  obtains rows seqs where "vt = Float64 rows" "length rows = length (vectors b)"
    "map (map sint) seqs = docids b" "docids b \<noteq> []"
    "dt = Int64 (map (\<lambda>s. s @ replicate (max_len seqs - length s) 0) seqs)"
proof -
  from assms obtain rows seqs padded where
    1: "torch_tensor_f64 (vectors b) = Inr rows" and
    2: "map_raise torch_tensor_i64 (docids b) = Inr seqs" and
    3: "pad_sequence seqs = Inr padded" and
    4: "vt = Float64 rows" "dt = Int64 padded"
    by (auto simp: build_tensors_def split: sum.splits)
  from 3 have 5: "seqs \<noteq> []"
    "padded = map (\<lambda>s. s @ replicate (max_len seqs - length s) 0) seqs"
    by (auto simp: pad_sequence_def split: if_splits)
  from 2 have 6: "map (map sint) seqs = docids b" by (rule map_raise_i64_sint)
  with 5 have "docids b \<noteq> []" by auto
  with that 4 5 6 torch_tensor_f64_rows [OF 1] show thesis by blast
qed

lemma build_tensors_empty: "docids b = [] \<Longrightarrow> \<exists>e. build_tensors b = Inl e"
  by (auto simp: build_tensors_def pad_sequence_def split: sum.splits)

subsection \<open>Paths\<close>

lemma prefix_slash_append:
  "s \<noteq> [] \<Longrightarrow> hd s \<noteq> CHR ''/'' \<Longrightarrow> prefix ''/'' (x @ s) \<longleftrightarrow> prefix ''/'' x"
  by (cases x; cases s) simp_all

lemma length_path_join:
  "length (path_join a b) =
     (if prefix ''/'' b then length b
      else if a = [] \<or> suffix ''/'' a then length a + length b
      else length a + 1 + length b)"
  by (simp add: path_join_def)

lemma vectors_path_neq_docids_path: "vectors_path p out \<noteq> docids_path p out"
proof -
  have "length (vectors_path p out) = Suc (length (docids_path p out))"
    by (simp add: vectors_path_def docids_path_def length_path_join prefix_slash_append)
  then show ?thesis by auto
qed






subsection \<open>Deleting the extensions\<close>

lemma replace_unchanged: "old \<noteq> [] \<Longrightarrow> \<not> sublist old s \<Longrightarrow> replace old new s = s"
  by (induction s) (auto simp: sublist_Cons_right)

lemma replace_hit:
  "prefix (d # r) (c # cs) \<Longrightarrow>
     replace (d # r) new (c # cs) = new @ replace (d # r) new (drop (length r) cs)"
  by simp

lemma replace_miss:
  "\<not> prefix (d # r) (c # cs) \<Longrightarrow> replace (d # r) new (c # cs) = c # replace (d # r) new cs"
  by auto

text \<open>
  A pattern with a dot at its head only cannot lie across the start of a tail that
  begins with a dot.
\<close>

lemma prefix_dotted_append:
  assumes "CHR ''.'' \<notin> set r" and "t = [] \<or> hd t = CHR ''.''"
  shows "prefix (d # r) ((c # cs) @ t) \<longleftrightarrow> prefix (d # r) (c # cs)"
proof
  assume p: "prefix (d # r) ((c # cs) @ t)"
  show "prefix (d # r) (c # cs)"
  proof (rule ccontr)
    assume "\<not> prefix (d # r) (c # cs)"
    with p obtain us where u: "d # r = (c # cs) @ us" "prefix us t" "us \<noteq> []"
      by (auto simp: prefix_append)
    then have "t \<noteq> []" by auto
    with assms(2) have "hd t = CHR ''.''" by simp
    with u have "hd us = CHR ''.''" by (cases us; cases t) auto
    with u have "CHR ''.'' \<in> set r" by (cases us) auto
    with assms(1) show False by simp
  qed
next
  assume "prefix (d # r) (c # cs)"
  then show "prefix (d # r) ((c # cs) @ t)" by (metis prefix_prefix)
qed

lemma replace_append:
  assumes "CHR ''.'' \<notin> set r" and "t = [] \<or> hd t = CHR ''.''"
  shows "replace (d # r) [] (xs @ t) = replace (d # r) [] xs @ replace (d # r) [] t"
proof (induction xs rule: length_induct)
  case (1 xs)
  show ?case
  proof (cases xs)
    case Nil
    then show ?thesis by simp
  next
    case (Cons c cs)
    have iff: "prefix (d # r) (c # (cs @ t)) \<longleftrightarrow> prefix (d # r) (c # cs)"
      using prefix_dotted_append [OF assms, of d c cs] by simp
    show ?thesis
    proof (cases "prefix (d # r) (c # cs)")
      case True
      then have le: "length r \<le> length cs" by (auto dest: prefix_length_le)
      have "length (drop (length r) cs) < length xs" using Cons by simp
      with 1 have ih: "replace (d # r) [] (drop (length r) cs @ t) =
        replace (d # r) [] (drop (length r) cs) @ replace (d # r) [] t" by blast
      have "replace (d # r) [] (xs @ t) = replace (d # r) [] (drop (length r) (cs @ t))"
        using True iff Cons replace_hit [of d r c "cs @ t" "[]"] by simp
      also have "\<dots> = replace (d # r) [] (drop (length r) cs @ t)" using le by simp
      also have "\<dots> = replace (d # r) [] (drop (length r) cs) @ replace (d # r) [] t"
        by (rule ih)
      also have "replace (d # r) [] (drop (length r) cs) = replace (d # r) [] xs"
        using True Cons replace_hit [of d r c cs "[]"] by simp
      finally show ?thesis .
    next
      case False
      have ih: "replace (d # r) [] (cs @ t) = replace (d # r) [] cs @ replace (d # r) [] t"
        using 1 Cons by simp
      have "replace (d # r) [] (xs @ t) = c # replace (d # r) [] (cs @ t)"
        using False iff Cons replace_miss [of d r c "cs @ t" "[]"] by simp
      moreover have "replace (d # r) [] xs = c # replace (d # r) [] cs"
        using False Cons replace_miss [of d r c cs "[]"] by simp
      ultimately show ?thesis using ih by simp
    qed
  qed
qed

lemma remove_extensions_gz: "remove_extensions (s @ ''.gz'') = remove_extensions s"
  by (simp add: remove_extensions_def replace_append [where t = "''.gz''"]
      replace_append [where t = "[]"])

lemma remove_extensions_jsonl: "remove_extensions (s @ ''.jsonl'') = remove_extensions s"
  by (simp add: remove_extensions_def replace_append [where t = "''.jsonl''"])

lemma remove_extensions_json: "remove_extensions (s @ ''.json'') = remove_extensions s"
  by (simp add: remove_extensions_def replace_append [where t = "''.json''"])

text \<open>The trailing suffixes go first; what the code deletes beyond them lies inside the rest.\<close>

lemma remove_extensions_spec: "remove_extensions s = remove_extensions (spec_base_name s)"
proof (induction s rule: spec_base_name.induct)
  case (1 s)
  show ?case
  proof (cases "suffix ''.gz'' s")
    case True
    then have "take (length s - 3) s @ ''.gz'' = s" by (auto simp: suffix_def)
    then have "remove_extensions s = remove_extensions (take (length s - 3) s)"
      using remove_extensions_gz [of "take (length s - 3) s"] by simp
    with True 1(1) show ?thesis by (subst spec_base_name.simps) simp
  next
    case ngz: False
    show ?thesis
    proof (cases "suffix ''.jsonl'' s")
      case True
      then have "take (length s - 6) s @ ''.jsonl'' = s" by (auto simp: suffix_def)
      then have "remove_extensions s = remove_extensions (take (length s - 6) s)"
        using remove_extensions_jsonl [of "take (length s - 6) s"] by simp
      with True ngz 1(2) show ?thesis by (subst spec_base_name.simps) simp
    next
      case njl: False
      show ?thesis
      proof (cases "suffix ''.json'' s")
        case True
        then have "take (length s - 5) s @ ''.json'' = s" by (auto simp: suffix_def)
        then have "remove_extensions s = remove_extensions (take (length s - 5) s)"
          using remove_extensions_json [of "take (length s - 5) s"] by simp
        with True ngz njl 1(3) show ?thesis by (subst spec_base_name.simps) simp
      next
        case False
        with ngz njl show ?thesis by (subst spec_base_name.simps) simp
      qed
    qed
  qed
qed

lemma remove_extensions_unchanged:
  assumes "\<not> sublist ''.gz'' s" and "\<not> sublist ''.json'' s"
  shows "remove_extensions s = s"
proof -
  have "sublist ''.json'' ''.jsonl''" by (simp add: sublist_code)
  with assms(2) have "\<not> sublist ''.jsonl'' s" using sublist_order.order_trans by blast
  with assms show ?thesis by (simp add: remove_extensions_def replace_unchanged)
qed

subsection \<open>The outcomes of processing a file\<close>

lemma process_file_cases:
  "process_file fs p out ow =
     (case fs p of
        None \<Rightarrow> (Inl FileNotFoundError, fs)
      | Some f \<Rightarrow>
          if \<not> ow \<and> (fs (vectors_path p out) \<noteq> None \<or> fs (docids_path p out) \<noteq> None)
          then (Inl FileExistsError, fs)
          else
            (case file_opener p of
               Inl e \<Rightarrow> (Inl e, fs)
             | Inr opn \<Rightarrow>
                 (case read_lines opn f of
                    Inl e \<Rightarrow> (Inl e, fs)
                  | Inr ls \<Rightarrow>
                      (case process_lines ls empty_batch of
                         Inl e \<Rightarrow> (Inl e, fs)
                       | Inr b \<Rightarrow>
                           (case build_tensors b of
                              Inl e \<Rightarrow> (Inl e, fs)
                            | Inr (vt, dt) \<Rightarrow>
                                (Inr (),
                                 fs(vectors_path p out \<mapsto> SafeTensors [(''vectors'', vt)],
                                    docids_path p out \<mapsto> SafeTensors [(''docids'', dt)])))))))"
  using vectors_path_neq_docids_path [of p out]
  by (simp add: process_file_def Let_def load_file_def save_file_def
      split: option.splits sum.splits prod.splits)

lemma process_file_success:
  assumes "process_file fs p out ow = (Inr (), fs')"
  obtains f opn ls b vt dt where
    "fs p = Some f" "file_opener p = Inr opn" "read_lines opn f = Inr ls"
    "input_lines fs p = Inr ls"
    "process_lines ls empty_batch = Inr b" "build_tensors b = Inr (vt, dt)"
    "fs' = fs(vectors_path p out \<mapsto> SafeTensors [(''vectors'', vt)],
              docids_path p out \<mapsto> SafeTensors [(''docids'', dt)])"
  using assms unfolding process_file_cases input_lines_def
  by (auto split: option.splits sum.splits prod.splits if_splits)

lemma process_file_failure: "process_file fs p out ow = (Inl e, fs') \<Longrightarrow> fs' = fs"
  unfolding process_file_cases
  by (auto split: option.splits sum.splits prod.splits if_splits)

subsection \<open>Docid rows never outnumber vector rows\<close>

lemma handle_entry_one_docid: "length (docids (snd (handle_entry entry empty_batch))) \<le> 1"
  by (simp add: handle_entry_def Let_def empty_batch_def split: sum.splits)

lemma codes_of_line_bound:
  "length (codes_of_line l) \<le> (if starts_with_float l then 1 else 0)"
proof (cases "starts_with_float l")
  case False
  then show ?thesis by (simp add: codes_of_line_no_float)
next
  case True
  then obtain entry where l: "l = Some entry"
    by (cases l) (auto simp: starts_with_float_def)
  with True handle_entry_one_docid [of entry] show ?thesis
    by (auto simp: codes_of_line_def process_line_def split: prod.splits option.splits sum.splits)
qed

lemma codes_bound: "length (concat (map codes_of_line ls)) \<le> length (filter starts_with_float ls)"
proof (induction ls)
  case Nil
  then show ?case by simp
next
  case (Cons l ls)
  with codes_of_line_bound [of l] show ?case by (auto split: if_splits)
qed

lemma process_lines_rows:
  assumes "process_lines ls empty_batch = Inr b"
  shows "length (docids b) \<le> length (vectors b)"
  using process_lines_docids [OF assms] process_lines_vectors [OF assms] codes_bound [of ls]
  by (simp add: empty_batch_def)

section \<open>Evaluating the examples\<close>

lemmas record_defs = record_ab_def record_c_def record_short_def record_empty_vector_def
  record_no_docid_def record_no_vector_def

lemmas entry_simps = process_line_def handle_entry_def dict_get_def getitem0_def getitem_def
  is_float_def docid_ascii_string empty_batch_def

lemmas path_simps = vectors_path_def docids_path_def base_name_def basename_def
  remove_extensions_def path_join_def suffix_to_prefix

lemmas tensor_simps = build_tensors_def torch_tensor_f64_def tensor_row_def to_float64_def
  torch_tensor_i64_def pad_sequence_def max_len_def

lemma example_paths:
  "vectors_path ''in/a.jsonl'' ''out'' = ''out/a_vectors.safetensors''"
  "docids_path ''in/a.jsonl'' ''out'' = ''out/a_docids.safetensors''"
  by (simp_all add: path_simps)

lemma example_input:
  "input_lines example_fs ''in/a.jsonl'' = Inr [record_ab, None, record_no_vector, record_c]"
  by (simp add: input_lines_def example_fs_def file_opener_def read_lines_def suffix_to_prefix)

lemma example_run: "process_file example_fs ''in/a.jsonl'' ''out'' ow = (Inr (), example_result)"
  unfolding process_file_cases example_paths
  by (simp add: example_fs_def example_result_def record_defs file_opener_def read_lines_def
      suffix_to_prefix entry_simps tensor_simps)

lemma example_codes:
  "codes_of_line record_ab = [[97, 98]]"
  "codes_of_line None = []"
  "codes_of_line record_no_vector = []"
  "codes_of_line record_c = [[99]]"
  by (simp_all add: codes_of_line_def record_defs entry_simps)

section \<open>The claims\<close>

text \<open>
  Counterexample to C1 as stated. Two lines pass the vector check, but their vectors
  differ in length, so \<^verbatim>\<open>torch.tensor\<close> rejects the list: the call raises, no vector
  array is written, and there are no rows to equal the count of two.
\<close>

theorem ragged_vectors_no_output:
  "length (filter starts_with_float [record_ab, record_short]) = 2 \<and>
   process_file [''in/r.jsonl'' \<mapsto> Text [record_ab, record_short]] ''in/r.jsonl'' ''out'' False =
     (Inl ValueError, [''in/r.jsonl'' \<mapsto> Text [record_ab, record_short]]) \<and>
   [''in/r.jsonl'' \<mapsto> Text [record_ab, record_short]] (vectors_path ''in/r.jsonl'' ''out'') = None"
  unfolding process_file_cases
  by (simp add: starts_with_float_def record_defs entry_simps path_simps tensor_simps
      file_opener_def read_lines_def)

text \<open>
  C1 (amended). When a file is processed to the end, the vector array written for it has
  one row for each input line that parses as JSON and whose \<^verbatim>\<open>vector\<close> field is a
  non-empty array starting with a float; every other line adds no row.
\<close>

theorem vector_rows_count:
  assumes "process_file fs input_file_path output_directory overwrite = (Inr (), fs')"
  shows "\<exists>ls rows.
           input_lines fs input_file_path = Inr ls \<and>
           fs' (vectors_path input_file_path output_directory) =
             Some (SafeTensors [(''vectors'', Float64 rows)]) \<and>
           length rows = length (filter starts_with_float ls)"
proof -
  from assms obtain ls b vt dt where
    ls: "input_lines fs input_file_path = Inr ls" and
    b: "process_lines ls empty_batch = Inr b" and
    t: "build_tensors b = Inr (vt, dt)" and
    fs': "fs' = fs(vectors_path input_file_path output_directory \<mapsto> SafeTensors [(''vectors'', vt)],
                   docids_path input_file_path output_directory \<mapsto> SafeTensors [(''docids'', dt)])"
    by (rule process_file_success)
  from t obtain rows where rows: "vt = Float64 rows" "length rows = length (vectors b)"
    by (rule build_tensors_result)
  from process_lines_vectors [OF b]
  have "length (vectors b) = length (filter starts_with_float ls)"
    by (simp add: empty_batch_def)
  with ls rows fs' vectors_path_neq_docids_path [of input_file_path output_directory]
  show ?thesis by auto
qed

theorem vector_rows_count_witness:
  "process_file example_fs ''in/a.jsonl'' ''out'' False = (Inr (), example_result) \<and>
   (\<exists>rows. example_result ''out/a_vectors.safetensors'' =
              Some (SafeTensors [(''vectors'', Float64 rows)]) \<and>
            length rows = 2)"
  using vector_rows_count [OF example_run [of False]]
  by (simp add: example_run example_paths example_input starts_with_float_def record_defs
      numeral_2_eq_2)

text \<open>
  C2. A line whose \<^verbatim>\<open>vector\<close> is the empty array is not skipped: \<^verbatim>\<open>[][0]\<close> raises
  \<^verbatim>\<open>IndexError\<close>, which the \<^verbatim>\<open>except\<close> clause does not catch. The loop ends there,
  whatever lines follow and whatever was collected before, no warning is logged, and
  the file is left without output.
\<close>

theorem empty_vector_aborts:
  "process_lines (record_empty_vector # rest) b = Inl IndexError \<and>
   process_file [''in/e.jsonl'' \<mapsto> Text [record_empty_vector, record_ab]] ''in/e.jsonl'' ''out'' ow =
     (Inl IndexError, [''in/e.jsonl'' \<mapsto> Text [record_empty_vector, record_ab]])"
  unfolding process_file_cases
  by (simp add: record_defs entry_simps path_simps file_opener_def read_lines_def)

theorem empty_vector_aborts_witness:
  "process_lines [record_empty_vector, record_ab] empty_batch = Inl IndexError"
  using empty_vector_aborts [of "[record_ab]" empty_batch False] by simp

text \<open>
  C3. A record with a float vector and no \<^verbatim>\<open>docid\<close> leaves its vector in \<^verbatim>\<open>vectors\<close>:
  the append runs before the lookup that raises \<^verbatim>\<open>KeyError\<close>. After such a line the two
  lists differ in length, and row 0 of the docid codes belongs to the second record
  while row 0 of the vectors belongs to the first. The files written have two vector
  rows and one docid row.
\<close>

theorem missing_docid_misaligns:
  "process_lines [record_no_docid, record_c] empty_batch =
     Inr \<lparr>vectors = [JArray [JFloat 0x3FB999999999999A, JFloat 0x3FC999999999999A],
                      JArray [JFloat 0x3FD3333333333333, JFloat 0x3FD999999999999A]],
          docids = [[99]],
          warnings = [SkippedJSON KeyError]\<rparr> \<and>
   process_file [''in/m.jsonl'' \<mapsto> Text [record_no_docid, record_c]] ''in/m.jsonl'' ''out'' ow =
     (Inr (),
      [''in/m.jsonl'' \<mapsto> Text [record_no_docid, record_c],
       ''out/m_vectors.safetensors'' \<mapsto>
         SafeTensors [(''vectors'',
           Float64 [[FromFloat 0x3FB999999999999A, FromFloat 0x3FC999999999999A],
                    [FromFloat 0x3FD3333333333333, FromFloat 0x3FD999999999999A]])],
       ''out/m_docids.safetensors'' \<mapsto> SafeTensors [(''docids'', Int64 [[99]])]])"
  unfolding process_file_cases
  by (simp add: record_defs entry_simps path_simps tensor_simps file_opener_def read_lines_def)

theorem missing_docid_misaligns_witness:
  "\<exists>b. process_lines [record_no_docid, record_c] empty_batch = Inr b \<and>
        length (vectors b) = 2 \<and> length (docids b) = 1"
  using missing_docid_misaligns [of False] by simp

text \<open>
  C4. When a file is processed to the end, the identifier array written for it has one
  row for each docid code sequence the lines contributed, in the order of the lines.
  Read as signed integers, a row is its code sequence followed by zeros, and every row
  is as long as the longest code sequence. By \<open>codes_of_line_record\<close> the code sequence
  of a record with a string docid has the length of that string.
\<close>

theorem docid_rows_padded:
  assumes "process_file fs input_file_path output_directory overwrite = (Inr (), fs')"
  shows "\<exists>ls ds m rows.
           input_lines fs input_file_path = Inr ls \<and>
           ds = concat (map codes_of_line ls) \<and>
           m = Max (length ` set ds) \<and>
           fs' (docids_path input_file_path output_directory) =
             Some (SafeTensors [(''docids'', Int64 rows)]) \<and>
           map (map sint) rows = map (\<lambda>d. d @ replicate (m - length d) 0) ds \<and>
           list_all (\<lambda>r. length r = m) rows"
proof -
  from assms obtain ls b vt dt where
    ls: "input_lines fs input_file_path = Inr ls" and
    b: "process_lines ls empty_batch = Inr b" and
    t: "build_tensors b = Inr (vt, dt)" and
    fs': "fs' = fs(vectors_path input_file_path output_directory \<mapsto> SafeTensors [(''vectors'', vt)],
                   docids_path input_file_path output_directory \<mapsto> SafeTensors [(''docids'', dt)])"
    by (rule process_file_success)
  define ds where "ds = concat (map codes_of_line ls)"
  define m where "m = Max (length ` set ds)"
  from process_lines_docids [OF b] have ds: "docids b = ds"
    by (simp add: ds_def empty_batch_def)
  from t ds obtain seqs where
    seqs: "map (map sint) seqs = ds" "ds \<noteq> []" and
    dt: "dt = Int64 (map (\<lambda>s. s @ replicate (max_len seqs - length s) 0) seqs)"
    by (auto elim: build_tensors_result)
  define rows where "rows = map (\<lambda>s. s @ replicate (max_len seqs - length s) 0) seqs"
  have "max_len seqs = max_len ds" using max_len_map [of sint seqs] seqs(1) by simp
  with seqs(2) have m: "max_len seqs = m" by (simp add: m_def max_len_Max)
  have "map (map sint) rows = map (\<lambda>s. map sint s @ replicate (m - length s) 0) seqs"
    by (simp add: rows_def m)
  also have "\<dots> = map (\<lambda>d. d @ replicate (m - length d) 0) (map (map sint) seqs)"
    by (simp add: comp_def)
  finally have 1: "map (map sint) rows = map (\<lambda>d. d @ replicate (m - length d) 0) ds"
    using seqs(1) by simp
  have 2: "list_all (\<lambda>r. length r = m) rows"
    using length_le_max_len [of _ seqs] by (auto simp: rows_def list_all_iff m)
  from fs' dt have "fs' (docids_path input_file_path output_directory) =
      Some (SafeTensors [(''docids'', Int64 rows)])"
    by (simp add: rows_def)
  with ls 1 2 show ?thesis unfolding ds_def m_def by blast
qed

theorem docid_rows_padded_witness:
  "process_file example_fs ''in/a.jsonl'' ''out'' True = (Inr (), example_result) \<and>
   (\<exists>rows. example_result ''out/a_docids.safetensors'' =
              Some (SafeTensors [(''docids'', Int64 rows)]) \<and>
            map (map sint) rows = [[97, 98], [99, 0]] \<and>
            list_all (\<lambda>r. length r = 2) rows)"
  using docid_rows_padded [OF example_run [of True]]
  by (simp add: example_run example_paths example_input example_codes numeral_2_eq_2)

text \<open>
  C5. The docid transform gives one integer per character, the character's code, and
  decoding the codes gives the string back; \<^verbatim>\<open>"ab"\<close> becomes \<^verbatim>\<open>[97, 98]\<close>. This holds for
  every string of the model, so for every ASCII string.
\<close>

theorem docid_codes_invertible:
  "docid_ascii (JString s) = Inr (map of_char s) \<and>
   decode_docid (map of_char s) = s \<and>
   docid_ascii (JString ''ab'') = Inr [97, 98]"
  by (simp add: docid_ascii_string decode_docid_def)

text \<open>
  C6. For an input file that exists: when \<^verbatim>\<open>overwrite\<close> is false and one of the two
  output paths exists, \<^verbatim>\<open>process_file\<close> raises \<^verbatim>\<open>FileExistsError\<close> and leaves every file
  as it was. (The existence of the input is checked first; a missing input raises
  \<^verbatim>\<open>FileNotFoundError\<close>, also before any write.)
\<close>

theorem existing_output_refused:
  assumes "fs input_file_path = Some f"
    and "\<not> overwrite"
    and "fs (vectors_path input_file_path output_directory) \<noteq> None \<or>
         fs (docids_path input_file_path output_directory) \<noteq> None"
  shows "process_file fs input_file_path output_directory overwrite = (Inl FileExistsError, fs)"
  using assms unfolding process_file_cases by auto

theorem existing_output_refused_witness:
  "example_result ''in/a.jsonl'' = Some (Text [record_ab, None, record_no_vector, record_c]) \<and>
   example_result (vectors_path ''in/a.jsonl'' ''out'') \<noteq> None \<and>
   process_file example_result ''in/a.jsonl'' ''out'' False = (Inl FileExistsError, example_result)"
proof -
  have 1: "example_result ''in/a.jsonl'' = Some (Text [record_ab, None, record_no_vector, record_c])"
    by (simp add: example_result_def example_fs_def)
  have 2: "example_result (vectors_path ''in/a.jsonl'' ''out'') \<noteq> None"
    by (simp add: example_paths example_result_def)
  from existing_output_refused [of example_result "''in/a.jsonl''" _ False "''out''"] 1 2
  show ?thesis by simp
qed

text \<open>
  C7. The base name is not the file name with its trailing suffixes stripped: the three
  \<^verbatim>\<open>replace\<close> calls delete \<^verbatim>\<open>.jsonl\<close>, \<^verbatim>\<open>.gz\<close> and \<^verbatim>\<open>.json\<close> wherever they occur in the
  name. For \<^verbatim>\<open>in/data.gz.v2.json\<close> stripping the suffix leaves \<^verbatim>\<open>data.gz.v2\<close>, but the
  output is named after \<^verbatim>\<open>data.v2\<close>; for \<^verbatim>\<open>in/x.gzip.json\<close> it leaves \<^verbatim>\<open>x.gzip\<close>, but the
  output is named after \<^verbatim>\<open>xip\<close>.
\<close>

theorem inner_extension_deleted:
  "spec_base_name (basename ''in/data.gz.v2.json'') = ''data.gz.v2'' \<and>
   base_name ''in/data.gz.v2.json'' = ''data.v2'' \<and>
   vectors_path ''in/data.gz.v2.json'' ''out'' = ''out/data.v2_vectors.safetensors'' \<and>
   docids_path ''in/data.gz.v2.json'' ''out'' = ''out/data.v2_docids.safetensors'' \<and>
   vectors_path ''in/data.gz.v2.json'' ''out'' \<noteq>
     path_join ''out'' (spec_base_name (basename ''in/data.gz.v2.json'') @ ''_vectors.safetensors'') \<and>
   spec_base_name (basename ''in/x.gzip.json'') = ''x.gzip'' \<and>
   base_name ''in/x.gzip.json'' = ''xip''"
  by (simp add: path_simps spec_base_name.simps)

theorem inner_extension_deleted_witness:
  "base_name ''in/data.gz.v2.json'' \<noteq> spec_base_name (basename ''in/data.gz.v2.json'') \<and>
   base_name ''in/x.gzip.json'' \<noteq> spec_base_name (basename ''in/x.gzip.json'')"
  using inner_extension_deleted by simp

text \<open>
  Where the code and the suffix rule agree: if what is left after stripping the trailing
  suffixes contains neither \<^verbatim>\<open>.gz\<close> nor \<^verbatim>\<open>.json\<close>, the two output paths are
  \<^verbatim>\<open><base>_vectors.safetensors\<close> and \<^verbatim>\<open><base>_docids.safetensors\<close> in the output directory,
  with \<^verbatim>\<open>base\<close> the stripped name, and a run that reaches its end writes these two files
  and changes nothing else.
\<close>

lemma output_names:
  assumes "\<not> sublist ''.gz'' (spec_base_name (basename input_file_path))"
    and "\<not> sublist ''.json'' (spec_base_name (basename input_file_path))"
  shows "\<exists>base.
           base = spec_base_name (basename input_file_path) \<and>
           vectors_path input_file_path output_directory =
             path_join output_directory (base @ ''_vectors.safetensors'') \<and>
           docids_path input_file_path output_directory =
             path_join output_directory (base @ ''_docids.safetensors'') \<and>
           (process_file fs input_file_path output_directory overwrite = (Inr (), fs') \<longrightarrow>
              (\<exists>vt dt.
                 fs' = fs(path_join output_directory (base @ ''_vectors.safetensors'') \<mapsto>
                            SafeTensors [(''vectors'', vt)],
                          path_join output_directory (base @ ''_docids.safetensors'') \<mapsto>
                            SafeTensors [(''docids'', dt)])))"
proof -
  have "base_name input_file_path =
      remove_extensions (spec_base_name (basename input_file_path))"
    unfolding base_name_def by (rule remove_extensions_spec)
  with assms have base: "base_name input_file_path = spec_base_name (basename input_file_path)"
    by (simp add: remove_extensions_unchanged)
  have "\<exists>vt dt.
      fs' = fs(vectors_path input_file_path output_directory \<mapsto> SafeTensors [(''vectors'', vt)],
               docids_path input_file_path output_directory \<mapsto> SafeTensors [(''docids'', dt)])"
    if "process_file fs input_file_path output_directory overwrite = (Inr (), fs')"
    using that by (rule process_file_success) blast
  then show ?thesis
    unfolding vectors_path_def docids_path_def base by blast
qed

text \<open>
  C8. The opener depends on the end of the path and on nothing else, and the file is
  read through it. For an input that exists, with \<^verbatim>\<open>overwrite\<close> set or both output paths
  free, the whole outcome of \<^verbatim>\<open>process_file\<close> is that of reading the file through
  \<^verbatim>\<open>gzip.open\<close> when the path ends in \<^verbatim>\<open>.gz\<close>, through \<^verbatim>\<open>open\<close> when it ends in \<^verbatim>\<open>.jsonl\<close> or
  \<^verbatim>\<open>.json\<close>, and the \<^verbatim>\<open>ValueError\<close> of the extension check otherwise, whatever the file
  holds. A path with any other ending always makes the call end with an exception and
  change no file.
\<close>

theorem opener_by_extension:
  "(fs p = Some f \<and> (ow \<or> fs (vectors_path p out) = None \<and> fs (docids_path p out) = None) \<longrightarrow>
      process_file fs p out ow =
        (let through = (\<lambda>opn.
               case read_lines opn f of
                 Inl e \<Rightarrow> (Inl e, fs)
               | Inr ls \<Rightarrow>
                   (case process_lines ls empty_batch of
                      Inl e \<Rightarrow> (Inl e, fs)
                    | Inr b \<Rightarrow>
                        (case build_tensors b of
                           Inl e \<Rightarrow> (Inl e, fs)
                         | Inr (vt, dt) \<Rightarrow>
                             (Inr (),
                              fs(vectors_path p out \<mapsto> SafeTensors [(''vectors'', vt)],
                                 docids_path p out \<mapsto> SafeTensors [(''docids'', dt)])))))
         in if suffix ''.gz'' p then through GzipOpen
            else if suffix ''.jsonl'' p \<or> suffix ''.json'' p then through PlainOpen
            else (Inl ValueError, fs))) \<and>
   (\<not> suffix ''.gz'' p \<and> \<not> suffix ''.jsonl'' p \<and> \<not> suffix ''.json'' p \<longrightarrow>
      (\<exists>e. process_file fs p out ow = (Inl e, fs)))"
  unfolding process_file_cases
  by (auto simp: file_opener_def Let_def split: option.splits)

theorem opener_by_extension_witness:
  "process_file [''in/v.jsonl.gz'' \<mapsto> Gzip [record_ab, record_c]] ''in/v.jsonl.gz'' ''out'' False =
     (Inr (),
      [''in/v.jsonl.gz'' \<mapsto> Gzip [record_ab, record_c],
       ''out/v_vectors.safetensors'' \<mapsto>
         SafeTensors [(''vectors'',
           Float64 [[FromFloat 0x3FB999999999999A, FromFloat 0x3FC999999999999A],
                    [FromFloat 0x3FD3333333333333, FromFloat 0x3FD999999999999A]])],
       ''out/v_docids.safetensors'' \<mapsto> SafeTensors [(''docids'', Int64 [[97, 98], [99, 0]])]]) \<and>
   process_file [''in/v.jsonl.gz'' \<mapsto> Text [record_ab]] ''in/v.jsonl.gz'' ''out'' False =
     (Inl IOError, [''in/v.jsonl.gz'' \<mapsto> Text [record_ab]]) \<and>
   process_file [''in/v.json'' \<mapsto> Text [record_ab, record_c]] ''in/v.json'' ''out'' False =
     (Inr (),
      [''in/v.json'' \<mapsto> Text [record_ab, record_c],
       ''out/v_vectors.safetensors'' \<mapsto>
         SafeTensors [(''vectors'',
           Float64 [[FromFloat 0x3FB999999999999A, FromFloat 0x3FC999999999999A],
                    [FromFloat 0x3FD3333333333333, FromFloat 0x3FD999999999999A]])],
       ''out/v_docids.safetensors'' \<mapsto> SafeTensors [(''docids'', Int64 [[97, 98], [99, 0]])]]) \<and>
   process_file [''in/v.json'' \<mapsto> Gzip [record_ab]] ''in/v.json'' ''out'' False =
     (Inl UnicodeDecodeError, [''in/v.json'' \<mapsto> Gzip [record_ab]]) \<and>
   process_file [''in/v.txt'' \<mapsto> Text [record_ab]] ''in/v.txt'' ''out'' False =
     (Inl ValueError, [''in/v.txt'' \<mapsto> Text [record_ab]])"
  using
    opener_by_extension [of "[''in/v.jsonl.gz'' \<mapsto> Gzip [record_ab, record_c]]"
      "''in/v.jsonl.gz''" "Gzip [record_ab, record_c]" False "''out''"]
    opener_by_extension [of "[''in/v.jsonl.gz'' \<mapsto> Text [record_ab]]"
      "''in/v.jsonl.gz''" "Text [record_ab]" False "''out''"]
    opener_by_extension [of "[''in/v.json'' \<mapsto> Text [record_ab, record_c]]"
      "''in/v.json''" "Text [record_ab, record_c]" False "''out''"]
    opener_by_extension [of "[''in/v.json'' \<mapsto> Gzip [record_ab]]"
      "''in/v.json''" "Gzip [record_ab]" False "''out''"]
    opener_by_extension [of "[''in/v.txt'' \<mapsto> Text [record_ab]]"
      "''in/v.txt''" "Text [record_ab]" False "''out''"]
  by (simp add: suffix_to_prefix read_lines_def path_simps record_defs entry_simps tensor_simps)



text \<open>
  C10. If no line of the input adds a docid row (which includes every file in which no
  line passes the vector check, by \<open>codes_of_line_no_float\<close>), \<^verbatim>\<open>process_file\<close> ends
  with an exception and changes no file; when the read loop runs to its end the
  exception comes from building the tensors. In general a call either changes no file
  or writes two arrays that both have at least one row.
\<close>

theorem no_valid_record_no_output:
  "(input_lines fs p = Inr ls \<and> list_all (\<lambda>l. codes_of_line l = []) ls \<longrightarrow>
      (\<exists>e. process_file fs p out ow = (Inl e, fs)) \<and>
      (\<forall>b. process_lines ls empty_batch = Inr b \<longrightarrow> (\<exists>e. build_tensors b = Inl e))) \<and>
   (process_file fs p out ow = (r, fs') \<longrightarrow>
      fs' = fs \<or>
      (\<exists>v vs d ds.
         fs' = fs(vectors_path p out \<mapsto> SafeTensors [(''vectors'', Float64 (v # vs))],
                  docids_path p out \<mapsto> SafeTensors [(''docids'', Int64 (d # ds))])))"
proof (intro conjI impI)
  assume a: "input_lines fs p = Inr ls \<and> list_all (\<lambda>l. codes_of_line l = []) ls"
  then have none: "concat (map codes_of_line ls) = []" by (simp add: list_all_iff)
  have build: "\<exists>e. build_tensors b = Inl e" if "process_lines ls empty_batch = Inr b" for b
  proof -
    from process_lines_docids [OF that] none have "docids b = []"
      by (simp add: empty_batch_def)
    then show ?thesis by (rule build_tensors_empty)
  qed
  then show "\<forall>b. process_lines ls empty_batch = Inr b \<longrightarrow> (\<exists>e. build_tensors b = Inl e)"
    by blast
  from a obtain f opn where "fs p = Some f" "file_opener p = Inr opn" "read_lines opn f = Inr ls"
    by (auto simp: input_lines_def split: option.splits sum.splits)
  with build show "\<exists>e. process_file fs p out ow = (Inl e, fs)"
    unfolding process_file_cases
    by (cases "process_lines ls empty_batch") auto
next
  assume run: "process_file fs p out ow = (r, fs')"
  show "fs' = fs \<or>
      (\<exists>v vs d ds.
         fs' = fs(vectors_path p out \<mapsto> SafeTensors [(''vectors'', Float64 (v # vs))],
                  docids_path p out \<mapsto> SafeTensors [(''docids'', Int64 (d # ds))]))"
  proof (cases r)
    case (Inl e)
    with run show ?thesis by (auto dest: process_file_failure)
  next
    case (Inr u)
    with run have "process_file fs p out ow = (Inr (), fs')" by simp
    then obtain ls b vt dt where
      b: "process_lines ls empty_batch = Inr b" and
      t: "build_tensors b = Inr (vt, dt)" and
      fs': "fs' = fs(vectors_path p out \<mapsto> SafeTensors [(''vectors'', vt)],
                     docids_path p out \<mapsto> SafeTensors [(''docids'', dt)])"
      by (rule process_file_success)
    from t obtain rows seqs where
      r: "vt = Float64 rows" "length rows = length (vectors b)"
        "map (map sint) seqs = docids b" "docids b \<noteq> []"
        "dt = Int64 (map (\<lambda>s. s @ replicate (max_len seqs - length s) 0) seqs)"
      by (rule build_tensors_result)
    from r(3,4) have "seqs \<noteq> []" by auto
    then obtain d ds where "map (\<lambda>s. s @ replicate (max_len seqs - length s) 0) seqs = d # ds"
      by (cases seqs) auto
    moreover from process_lines_rows [OF b] r(2,4) have "rows \<noteq> []" by auto
    then obtain v vs where "rows = v # vs" by (cases rows) auto
    ultimately show ?thesis using fs' r(1,5) by auto
  qed
qed

theorem no_valid_record_no_output_witness:
  "input_lines [''in/n.jsonl'' \<mapsto> Text [None, record_no_vector]] ''in/n.jsonl'' =
     Inr [None, record_no_vector] \<and>
   list_all (\<lambda>l. codes_of_line l = []) [None, record_no_vector] \<and>
   (\<exists>e. process_file [''in/n.jsonl'' \<mapsto> Text [None, record_no_vector]] ''in/n.jsonl'' ''out'' False =
      (Inl e, [''in/n.jsonl'' \<mapsto> Text [None, record_no_vector]])) \<and>
   process_file example_fs ''in/a.jsonl'' ''out'' False = (Inr (), example_result) \<and>
   example_result \<noteq> example_fs \<and>
   (\<exists>v vs d ds.
      example_result =
        example_fs(''out/a_vectors.safetensors'' \<mapsto> SafeTensors [(''vectors'', Float64 (v # vs))],
                   ''out/a_docids.safetensors'' \<mapsto> SafeTensors [(''docids'', Int64 (d # ds))]))"
proof -
  have 1: "input_lines [''in/n.jsonl'' \<mapsto> Text [None, record_no_vector]] ''in/n.jsonl'' =
      Inr [None, record_no_vector]"
    by (simp add: input_lines_def file_opener_def read_lines_def suffix_to_prefix)
  have 2: "list_all (\<lambda>l. codes_of_line l = []) [None, record_no_vector]"
    by (simp add: example_codes)
  have 3: "example_result \<noteq> example_fs"
  proof
    assume "example_result = example_fs"
    then have "example_result ''out/a_docids.safetensors'' = example_fs ''out/a_docids.safetensors''"
      by simp
    then show False by (simp add: example_result_def example_fs_def)
  qed
  from no_valid_record_no_output
    [of "[''in/n.jsonl'' \<mapsto> Text [None, record_no_vector]]" "''in/n.jsonl''"
      "[None, record_no_vector]" "''out''" False "Inr ()" example_result] 1 2
  have "\<exists>e. process_file [''in/n.jsonl'' \<mapsto> Text [None, record_no_vector]] ''in/n.jsonl'' ''out'' False =
      (Inl e, [''in/n.jsonl'' \<mapsto> Text [None, record_no_vector]])"
    by blast
  moreover from no_valid_record_no_output
    [of example_fs "''in/a.jsonl''" "[]" "''out''" False "Inr ()" example_result]
    example_run [of False] 3
  have "\<exists>v vs d ds.
      example_result =
        example_fs(''out/a_vectors.safetensors'' \<mapsto> SafeTensors [(''vectors'', Float64 (v # vs))],
                   ''out/a_docids.safetensors'' \<mapsto> SafeTensors [(''docids'', Int64 (d # ds))])"
    by (simp add: example_paths)
  ultimately show ?thesis using 1 2 3 example_run [of False] by blast
qed

end
